theory Spec2Isabelle
  imports Main
begin

section \<open>Data model\<close>

text \<open>
  Times are milliseconds since the epoch, as \<^verbatim>\<open>Date.now()\<close> and
  \<^verbatim>\<open>Date.getTime()\<close> give them: integers, far below the range where a JavaScript
  number stops being exact.
\<close>

type_synonym millis = int

text \<open>
  The \<^verbatim>\<open>Session\<close> object of \<^verbatim>\<open>session.ts\<close>: \<^verbatim>\<open>{ id, userId, expiresAt }\<close>.
  The field \<^verbatim>\<open>id\<close> is called \<open>session_id\<close> here, since \<open>id\<close> is the identity
  function of HOL.
\<close>

record session =
  session_id :: string
  userId :: int
  expiresAt :: millis

text \<open>
  Modelled from the spec: the schema module \<^verbatim>\<open>@/lib/server/db/schema\<close> (the types
  \<^verbatim>\<open>User\<close> and \<^verbatim>\<open>Session\<close>, the tables \<^verbatim>\<open>userTable\<close> and \<^verbatim>\<open>sessionTable\<close>) is not
  among the sources. The spec describes a user as an identifier with profile fields, owned
  by the persistence layer; the session manager only reads \<^verbatim>\<open>userTable.id\<close>.
\<close>

record user =
  user_id :: int
  profile :: string

text \<open>The two tables the session manager touches, each a list of rows.\<close>

record db =
  sessionTable :: "session list"
  userTable :: "user list"

text \<open>
  \<^verbatim>\<open>SessionValidationResult\<close>: either \<^verbatim>\<open>{ session: null, user: null }\<close> or a session
  together with its user.
\<close>

datatype SessionValidationResult =
  NoSession
  | Validated (session: session) (user: user)

datatype error = PersistenceError

section \<open>The persistence operations used by the session manager\<close>

definition thirty_days :: millis where
  "thirty_days = 1000 * 60 * 60 * 24 * 30"

definition fifteen_days :: millis where
  "fifteen_days = 1000 * 60 * 60 * 24 * 15"

text \<open>A number of days in milliseconds, for stating times.\<close>

definition days :: "int \<Rightarrow> millis" where
  "days n = n * (1000 * 60 * 60 * 24)"

text \<open>
  Modelled from the spec: the schema is not among the sources; the spec calls the session
  identifier the storage key of a session, so \<^verbatim>\<open>db.insert(sessionTable).values(session)\<close>
  appends the row unless a row with that identifier is stored already, in which case the
  insertion fails and the failure propagates to the caller.
\<close>

definition db_insert_session :: "db \<Rightarrow> session \<Rightarrow> error + db" where
  "db_insert_session d s =
     (if session_id s \<in> set (map session_id (sessionTable d)) then Inl PersistenceError
      else Inr (d\<lparr>sessionTable := sessionTable d @ [s]\<rparr>))"

text \<open>
  \<^verbatim>\<open>db.select({ user: userTable, session: sessionTable }).from(sessionTable)
     .innerJoin(userTable, eq(sessionTable.userId, userTable.id))
     .where(eq(sessionTable.id, sessionId))\<close>
\<close>

definition db_select_session_join :: "db \<Rightarrow> string \<Rightarrow> (user \<times> session) list" where
  "db_select_session_join d sessionId =
     [(u, s). s \<leftarrow> sessionTable d, u \<leftarrow> userTable d,
              userId s = user_id u, session_id s = sessionId]"

text \<open>\<^verbatim>\<open>db.delete(sessionTable).where(eq(sessionTable.id, sessionId))\<close>\<close>

definition db_delete_session :: "db \<Rightarrow> string \<Rightarrow> db" where
  "db_delete_session d sessionId =
     d\<lparr>sessionTable := filter (\<lambda>s. session_id s \<noteq> sessionId) (sessionTable d)\<rparr>"

text \<open>\<^verbatim>\<open>db.delete(sessionTable).where(eq(sessionTable.userId, userId))\<close>\<close>

definition db_delete_user_sessions :: "db \<Rightarrow> int \<Rightarrow> db" where
  "db_delete_user_sessions d uid =
     d\<lparr>sessionTable := filter (\<lambda>s. userId s \<noteq> uid) (sessionTable d)\<rparr>"

text \<open>
  \<^verbatim>\<open>db.update(sessionTable).set({ expiresAt: e }).where(eq(sessionTable.id, sessionId))\<close>
\<close>

definition db_update_expiresAt :: "db \<Rightarrow> string \<Rightarrow> millis \<Rightarrow> db" where
  "db_update_expiresAt d sessionId e =
     d\<lparr>sessionTable :=
          map (\<lambda>s. if session_id s = sessionId then s\<lparr>expiresAt := e\<rparr> else s)
            (sessionTable d)\<rparr>"

section \<open>The session manager\<close>

text \<open>
  The parameter \<open>H\<close> stands for the library composition
  \<^verbatim>\<open>encodeHexLowerCase(sha256(new TextEncoder().encode(token)))\<close>, which maps a token
  to its session identifier. The clock is an argument: \<open>now\<close> is the value that
  \<^verbatim>\<open>Date.now()\<close> returns.
\<close>

definition createSession ::
  "(string \<Rightarrow> string) \<Rightarrow> db \<Rightarrow> string \<Rightarrow> int \<Rightarrow> millis \<Rightarrow> error + (session \<times> db)" where
  "createSession H d token uid now =
     (let sessionId = H token;
          session = \<lparr>session_id = sessionId, userId = uid, expiresAt = now + thirty_days\<rparr>
      in case db_insert_session d session of
           Inl e \<Rightarrow> Inl e
         | Inr d' \<Rightarrow> Inr (session, d'))"

text \<open>
  \<^verbatim>\<open>validateSessionToken\<close> reads the clock up to three times: for the expiry test
  (\<open>t1\<close>), for the renewal test (\<open>t2\<close>) and for the new expiry (\<open>t3\<close>). The result is
  paired with the storage the call leaves behind.
\<close>

definition validateSessionToken ::
  "(string \<Rightarrow> string) \<Rightarrow> db \<Rightarrow> string \<Rightarrow> millis \<Rightarrow> millis \<Rightarrow> millis
     \<Rightarrow> SessionValidationResult \<times> db" where
  "validateSessionToken H d token t1 t2 t3 =
     (let sessionId = H token;
          result = db_select_session_join d sessionId
      in case result of
           [] \<Rightarrow> (NoSession, d)
         | (u, s) # _ \<Rightarrow>
             if t1 \<ge> expiresAt s then (NoSession, db_delete_session d (session_id s))
             else if t2 \<ge> expiresAt s - fifteen_days then
               (let s' = s\<lparr>expiresAt := t3 + thirty_days\<rparr>
                in (Validated s' u, db_update_expiresAt d (session_id s') (expiresAt s')))
             else (Validated s u, d))"

text \<open>A validation during which the clock does not advance.\<close>

definition validateAt ::
  "(string \<Rightarrow> string) \<Rightarrow> db \<Rightarrow> string \<Rightarrow> millis \<Rightarrow> SessionValidationResult \<times> db" where
  "validateAt H d token now = validateSessionToken H d token now now now"

definition invalidateSession :: "db \<Rightarrow> string \<Rightarrow> db" where
  "invalidateSession d sessionId = db_delete_session d sessionId"

definition invalidateAllSessions :: "db \<Rightarrow> int \<Rightarrow> db" where
  "invalidateAllSessions d uid = db_delete_user_sessions d uid"

text \<open>
  The row of \<^verbatim>\<open>userTable\<close> that the join pairs first with a session row, and the
  key constraint of \<^verbatim>\<open>sessionTable\<close>: no two stored sessions share an identifier.
\<close>

definition owner_of :: "db \<Rightarrow> session \<Rightarrow> user option" where
  "owner_of d s = find (\<lambda>u. userId s = user_id u) (userTable d)"

definition session_pk :: "db \<Rightarrow> bool" where
  "session_pk d = distinct (map session_id (sessionTable d))"

section \<open>The cached lookup of the current session\<close>

record cookie =
  cookie_value :: string
  path :: string
  httpOnly :: bool
  secure :: bool
  maxAge :: "int option"
  sameSite :: string

type_synonym cookieStore = "string \<rightharpoonup> cookie"

text \<open>\<^verbatim>\<open>cookieStore.set(name, value, options)\<close>: a later cookie of a name replaces an earlier one.\<close>

definition cookie_set :: "cookieStore \<Rightarrow> string \<Rightarrow> cookie \<Rightarrow> cookieStore" where
  "cookie_set store name c = store(name \<mapsto> c)"

text \<open>The argument of \<^verbatim>\<open>cacheLife\<close>, in seconds.\<close>

record cacheLife =
  stale :: int
  revalidate :: int
  expire :: int

text \<open>
  The function \<^verbatim>\<open>getCurrentSessionCached\<close> carries the directive \<^verbatim>\<open>"use cache"\<close>: the
  framework stores whatever a call returns, under the key of its argument, with the tags
  and the lifetime that the call declared through \<^verbatim>\<open>cacheTag\<close> and \<^verbatim>\<open>cacheLife\<close>. The model
  returns that entry: the value, the tags declared (none when \<^verbatim>\<open>cacheTag\<close> was not called)
  and the lifetime declared (\<open>None\<close> when \<^verbatim>\<open>cacheLife\<close> was not called, which leaves the
  framework's default).
\<close>

record cache_entry =
  entry_value :: SessionValidationResult
  entry_tags :: "string list"
  entry_life :: "cacheLife option"

text \<open>\<open>t4\<close> is the clock reading taken after the validation, for the remaining time.\<close>

definition getCurrentSessionCached ::
  "(string \<Rightarrow> string) \<Rightarrow> db \<Rightarrow> string option \<Rightarrow> millis \<Rightarrow> millis \<Rightarrow> millis \<Rightarrow> millis
     \<Rightarrow> cache_entry \<times> db" where
  "getCurrentSessionCached H d token t1 t2 t3 t4 =
     (case token of
        None \<Rightarrow> (\<lparr>entry_value = NoSession, entry_tags = [], entry_life = None\<rparr>, d)
      | Some tok \<Rightarrow>
          (case validateSessionToken H d tok t1 t2 t3 of
             (NoSession, d') \<Rightarrow>
               (\<lparr>entry_value = NoSession, entry_tags = [], entry_life = None\<rparr>, d')
           | (Validated s u, d') \<Rightarrow>
               (let now = t4;
                    expiresAt_ms = expiresAt s;
                    remainingTime = max 0 ((expiresAt_ms - now) div 1000)
                in (\<lparr>entry_value = Validated s u,
                     entry_tags = [''session:'' @ session_id s],
                     entry_life = Some \<lparr>stale = 0, revalidate = remainingTime,
                                         expire = remainingTime\<rparr>\<rparr>, d'))))"

text \<open>\<^verbatim>\<open>cookieStore.get("session")?.value ?? null\<close> is the token.\<close>

definition getCurrentSession ::
  "(string \<Rightarrow> string) \<Rightarrow> db \<Rightarrow> cookieStore \<Rightarrow> millis \<Rightarrow> millis \<Rightarrow> millis \<Rightarrow> millis
     \<Rightarrow> cache_entry \<times> db" where
  "getCurrentSession H d store t1 t2 t3 t4 =
     getCurrentSessionCached H d (map_option cookie_value (store ''session'')) t1 t2 t3 t4"

section \<open>Sequences of session-manager operations\<close>

text \<open>One call of an exported operation, with its arguments and its clock readings.\<close>

datatype operation =
  CreateSession string int millis
  | ValidateSessionToken string millis millis millis
  | InvalidateSession string
  | InvalidateAllSessions int
  | GetCurrentSessionCached "string option" millis millis millis millis

text \<open>
  The storage after one call. A \<^verbatim>\<open>createSession\<close> whose insertion fails throws and
  leaves the storage as it was.
\<close>

fun step :: "(string \<Rightarrow> string) \<Rightarrow> db \<Rightarrow> operation \<Rightarrow> db" where
  "step H d (CreateSession token uid now) =
     (case createSession H d token uid now of Inl e \<Rightarrow> d | Inr (s, d') \<Rightarrow> d')"
| "step H d (ValidateSessionToken token t1 t2 t3) = snd (validateSessionToken H d token t1 t2 t3)"
| "step H d (InvalidateSession sessionId) = invalidateSession d sessionId"
| "step H d (InvalidateAllSessions uid) = invalidateAllSessions d uid"
| "step H d (GetCurrentSessionCached token t1 t2 t3 t4) =
     snd (getCurrentSessionCached H d token t1 t2 t3 t4)"

definition run :: "(string \<Rightarrow> string) \<Rightarrow> db \<Rightarrow> operation list \<Rightarrow> db" where
  "run H d ops = foldl (step H) d ops"

text \<open>A call with every token replaced by its hash.\<close>

fun hashed :: "(string \<Rightarrow> string) \<Rightarrow> operation \<Rightarrow> operation" where
  "hashed H (CreateSession token uid now) = CreateSession (H token) uid now"
| "hashed H (ValidateSessionToken token t1 t2 t3) = ValidateSessionToken (H token) t1 t2 t3"
| "hashed H (InvalidateSession sessionId) = InvalidateSession sessionId"
| "hashed H (InvalidateAllSessions uid) = InvalidateAllSessions uid"
| "hashed H (GetCurrentSessionCached token t1 t2 t3 t4) =
     GetCurrentSessionCached (map_option H token) t1 t2 t3 t4"

text \<open>The hashes of the tokens that a call hands to \<^verbatim>\<open>createSession\<close>.\<close>

fun created_ids :: "(string \<Rightarrow> string) \<Rightarrow> operation \<Rightarrow> string list" where
  "created_ids H (CreateSession token uid now) = [H token]"
| "created_ids H _ = []"

section \<open>OAuth login initiation\<close>

text \<open>
  A URL as the handler uses it: the part before the query, and the query as the list of
  its name-value pairs (\<^verbatim>\<open>url.searchParams\<close>).
\<close>

record url =
  url_base :: string
  searchParams :: "(string \<times> string) list"

text \<open>
  \<^verbatim>\<open>URLSearchParams.set(name, value)\<close>: the first pair of that name takes the value and
  the other pairs of that name are removed; without such a pair, the pair is appended.
\<close>

fun searchParams_set :: "(string \<times> string) list \<Rightarrow> string \<Rightarrow> string \<Rightarrow> (string \<times> string) list" where
  "searchParams_set [] name v = [(name, v)]"
| "searchParams_set ((k, x) # ps) name v =
     (if k = name then (name, v) # filter (\<lambda>p. fst p \<noteq> name) ps
      else (k, x) # searchParams_set ps name v)"

record response =
  status :: int
  headers :: "(string \<times> string) list"
  body :: "string option"

text \<open>
  The handler \<^verbatim>\<open>GET\<close>. Its collaborators are arguments: \<open>createAuthorizationURL\<close> is the
  method of the provider client \<^verbatim>\<open>google\<close> (module \<^verbatim>\<open>@/lib/server/auth/oauth\<close>, not among
  the sources), \<open>toString\<close> is \<^verbatim>\<open>URL.toString\<close>, \<open>NODE_ENV\<close> is \<^verbatim>\<open>process.env.NODE_ENV\<close>,
  and \<open>state\<close> and \<open>codeVerifier\<close> are the values that \<^verbatim>\<open>generateState()\<close> and
  \<^verbatim>\<open>generateCodeVerifier()\<close> return.
\<close>

definition GET ::
  "(string \<Rightarrow> string \<Rightarrow> string list \<Rightarrow> url) \<Rightarrow> (url \<Rightarrow> string) \<Rightarrow> string option
     \<Rightarrow> string \<Rightarrow> string \<Rightarrow> cookieStore \<Rightarrow> response \<times> cookieStore" where
  "GET createAuthorizationURL toString NODE_ENV state codeVerifier cookieStore =
     (let url0 = createAuthorizationURL state codeVerifier [''openid'', ''profile''];
          url1 = url0\<lparr>searchParams :=
                   searchParams_set (searchParams url0) ''prompt'' ''select_account''\<rparr>;
          store1 = cookie_set cookieStore ''google_oauth_state''
            \<lparr>cookie_value = state, path = ''/'', httpOnly = True,
             secure = (NODE_ENV = Some ''production''), maxAge = Some (60 * 10),
             sameSite = ''lax''\<rparr>;
          store2 = cookie_set store1 ''google_code_verifier''
            \<lparr>cookie_value = codeVerifier, path = ''/'', httpOnly = True,
             secure = (NODE_ENV = Some ''production''), maxAge = Some (60 * 10),
             sameSite = ''lax''\<rparr>
      in (\<lparr>status = 302, headers = [(''Location'', toString url1)], body = None\<rparr>, store2))"

section \<open>Basic facts about the persistence operations\<close>

lemmas session_defs =
  createSession_def validateSessionToken_def validateAt_def invalidateSession_def
  invalidateAllSessions_def db_insert_session_def db_select_session_join_def
  db_delete_session_def db_delete_user_sessions_def db_update_expiresAt_def
  owner_of_def session_pk_def thirty_days_def fifteen_days_def days_def Let_def

lemma join_filter:
  "db_select_session_join d sid =
     concat (map (\<lambda>s. map (\<lambda>u. (u, s)) (filter (\<lambda>u. userId s = user_id u) (userTable d)))
       (filter (\<lambda>s. session_id s = sid) (sessionTable d)))"
proof -
  have inner: "concat (map (\<lambda>u. if userId s = user_id u then (if session_id s = sid then [(u, s)] else []) else []) us)
      = (if session_id s = sid then map (\<lambda>u. (u, s)) (filter (\<lambda>u. userId s = user_id u) us) else [])"
    for s :: session and us :: "user list"
    by (induction us) auto
  have outer: "concat (map (\<lambda>s. if session_id s = sid then f s else []) ss)
      = concat (map f (filter (\<lambda>s. session_id s = sid) ss))"
    for f :: "session \<Rightarrow> (user \<times> session) list" and ss :: "session list"
    by (induction ss) auto
  show ?thesis
    unfolding db_select_session_join_def inner outer ..
qed

lemma filter_pk:
  "distinct (map session_id ss) \<Longrightarrow> s \<in> set ss \<Longrightarrow>
     filter (\<lambda>r. session_id r = session_id s) ss = [s]"
proof (induction ss)
  case Nil
  then show ?case by simp
next
  case (Cons a ss)
  show ?case
  proof (cases "a = s")
    case True
    with Cons.prems have "session_id s \<notin> session_id ` set ss" by simp
    then have "filter (\<lambda>r. session_id r = session_id s) ss = []"
      by (auto simp: filter_empty_conv image_iff)
    with True show ?thesis by simp
  next
    case False
    with Cons.prems have "s \<in> set ss" "session_id a \<noteq> session_id s"
      by (auto simp: image_iff)
    with Cons show ?thesis by simp
  qed
qed

lemma filter_find:
  "find P xs = Some x \<Longrightarrow> \<exists>rest. filter P xs = x # rest"
  by (induction xs) (auto split: if_splits)

lemma find_filter:
  "filter P xs = x # rest \<Longrightarrow> find P xs = Some x"
  by (induction xs) (auto split: if_splits)

lemma filter_find_None:
  "find P xs = None \<Longrightarrow> filter P xs = []"
  by (induction xs) (auto split: if_splits)

lemma join_stored:
  assumes "distinct (map session_id (sessionTable d))" "s \<in> set (sessionTable d)"
    "find (\<lambda>u. userId s = user_id u) (userTable d) = Some u"
  shows "\<exists>rest. db_select_session_join d (session_id s) = (u, s) # rest"
  using filter_pk[OF assms(1,2)] filter_find[OF assms(3)]
  by (auto simp: join_filter)

lemma join_no_owner:
  assumes "distinct (map session_id (sessionTable d))" "s \<in> set (sessionTable d)"
    "find (\<lambda>u. userId s = user_id u) (userTable d) = None"
  shows "db_select_session_join d (session_id s) = []"
  using filter_pk[OF assms(1,2)] filter_find_None[OF assms(3)]
  by (auto simp: join_filter)

lemma join_absent:
  "sid \<notin> session_id ` set (sessionTable d) \<Longrightarrow> db_select_session_join d sid = []"
  by (auto simp: join_filter filter_empty_conv)

lemma concat_pairs_first:
  "concat (map (\<lambda>s. map (\<lambda>u. (u, s)) (g s)) ss) = (u, s) # rest \<Longrightarrow>
     s \<in> set ss \<and> (\<exists>us. g s = u # us)"
proof (induction ss)
  case Nil
  then show ?case by simp
next
  case (Cons a ss)
  show ?case
  proof (cases "g a")
    case Nil
    with Cons.prems have "concat (map (\<lambda>s. map (\<lambda>u. (u, s)) (g s)) ss) = (u, s) # rest"
      by simp
    with Cons.IH show ?thesis by simp
  next
    case (Cons b bs)
    with Cons.prems have "b = u" "a = s" by simp_all
    with Cons show ?thesis by simp
  qed
qed

lemma join_Cons_D:
  assumes "db_select_session_join d sid = (u, s) # rest"
  shows "s \<in> set (sessionTable d) \<and> session_id s = sid \<and>
     find (\<lambda>u. userId s = user_id u) (userTable d) = Some u"
proof -
  from assms have "s \<in> set (filter (\<lambda>s. session_id s = sid) (sessionTable d)) \<and>
      (\<exists>us. filter (\<lambda>u. userId s = user_id u) (userTable d) = u # us)"
    unfolding join_filter by (rule concat_pairs_first)
  then show ?thesis by (auto dest: find_filter)
qed

section \<open>Validation of a stored session\<close>

lemma pk_eq_iff:
  "session_pk d \<Longrightarrow> s \<in> set (sessionTable d) \<Longrightarrow> r \<in> set (sessionTable d) \<Longrightarrow>
     session_id r = session_id s \<longleftrightarrow> r = s"
  by (auto simp: session_pk_def distinct_map dest: inj_onD)

lemma delete_stored:
  assumes "session_pk d" "s \<in> set (sessionTable d)"
  shows "db_delete_session d (session_id s) = d\<lparr>sessionTable := removeAll s (sessionTable d)\<rparr>"
proof -
  have "filter (\<lambda>r. session_id r \<noteq> session_id s) (sessionTable d) = filter (\<lambda>r. r \<noteq> s) (sessionTable d)"
    by (rule filter_cong) (simp_all add: pk_eq_iff[OF assms])
  then show ?thesis by (simp add: db_delete_session_def removeAll_filter_not_eq eq_commute)
qed

lemma update_stored:
  assumes "session_pk d" "s \<in> set (sessionTable d)"
  shows "db_update_expiresAt d (session_id s) e =
     d\<lparr>sessionTable := map (\<lambda>r. if r = s then s\<lparr>expiresAt := e\<rparr> else r) (sessionTable d)\<rparr>"
proof -
  have "map (\<lambda>r. if session_id r = session_id s then r\<lparr>expiresAt := e\<rparr> else r) (sessionTable d)
      = map (\<lambda>r. if r = s then s\<lparr>expiresAt := e\<rparr> else r) (sessionTable d)"
    by (rule map_cong) (auto simp: pk_eq_iff[OF assms])
  then show ?thesis by (simp add: db_update_expiresAt_def)
qed

lemma validate_stored:
  assumes "session_pk d" "s \<in> set (sessionTable d)" "session_id s = H token"
    "owner_of d s = Some u"
  shows "validateSessionToken H d token t1 t2 t3 =
     (if expiresAt s \<le> t1 then (NoSession, db_delete_session d (session_id s))
      else if expiresAt s - fifteen_days \<le> t2 then
        (Validated (s\<lparr>expiresAt := t3 + thirty_days\<rparr>) u,
         db_update_expiresAt d (session_id s) (t3 + thirty_days))
      else (Validated s u, d))"
proof -
  from assms obtain rest where "db_select_session_join d (H token) = (u, s) # rest"
    using join_stored[of d s u] by (auto simp: session_pk_def owner_of_def)
  then show ?thesis by (simp add: validateSessionToken_def Let_def)
qed

lemma update_pk: "session_pk (db_update_expiresAt d sid e) = session_pk d"
proof -
  have ids: "map session_id (map (\<lambda>s. if session_id s = sid then s\<lparr>expiresAt := e\<rparr> else s) ss)
      = map session_id ss" for ss :: "session list"
    by (induction ss) auto
  show ?thesis
    unfolding session_pk_def db_update_expiresAt_def by (simp add: ids del: map_map)
qed

lemma update_owner: "owner_of (db_update_expiresAt d sid e) (s\<lparr>expiresAt := e'\<rparr>) = owner_of d s"
  by (simp add: owner_of_def db_update_expiresAt_def)

lemma update_update:
  "db_update_expiresAt (db_update_expiresAt d sid e) sid e' = db_update_expiresAt d sid e'"
  by (simp add: db_update_expiresAt_def comp_def cong: if_cong) 

lemma update_member:
  "s \<in> set (sessionTable d) \<Longrightarrow>
     s\<lparr>expiresAt := e\<rparr> \<in> set (sessionTable (db_update_expiresAt d (session_id s) e))"
  by (force simp: db_update_expiresAt_def)

lemma owner_of_None_iff:
  "owner_of d s = None \<longleftrightarrow> (\<forall>u\<in>set (userTable d). user_id u \<noteq> userId s)"
  by (auto simp: owner_of_def find_None_iff)

lemma owner_of_SomeD:
  "owner_of d s = Some u \<Longrightarrow> u \<in> set (userTable d) \<and> user_id u = userId s"
  by (auto simp: owner_of_def find_Some_iff)

lemma validate_renewed_again:
  assumes "session_pk d" and "s \<in> set (sessionTable d)" and "session_id s = H token"
    and "owner_of d s = Some u"
  shows "validateAt H (db_update_expiresAt d (session_id s) (now + thirty_days)) token now
     = (Validated (s\<lparr>expiresAt := now + thirty_days\<rparr>) u,
        db_update_expiresAt d (session_id s) (now + thirty_days))"
proof -
  let ?s1 = "s\<lparr>expiresAt := now + thirty_days\<rparr>"
  let ?d1 = "db_update_expiresAt d (session_id s) (now + thirty_days)"
  have "session_pk ?d1" using assms(1) by (simp add: update_pk)
  moreover have "?s1 \<in> set (sessionTable ?d1)" using assms(2) by (rule update_member)
  moreover have "session_id ?s1 = H token" using assms(3) by simp
  moreover have "owner_of ?d1 ?s1 = Some u" using assms(4) by (simp add: update_owner)
  ultimately have "validateSessionToken H ?d1 token now now now =
     (if expiresAt ?s1 \<le> now then (NoSession, db_delete_session ?d1 (session_id ?s1))
      else if expiresAt ?s1 - fifteen_days \<le> now then
        (Validated (?s1\<lparr>expiresAt := now + thirty_days\<rparr>) u,
         db_update_expiresAt ?d1 (session_id ?s1) (now + thirty_days))
      else (Validated ?s1 u, ?d1))"
    by (rule validate_stored)
  then show ?thesis
    by (simp add: validateAt_def thirty_days_def fifteen_days_def)
qed

lemma validate_Validated_cases:
  assumes "validateSessionToken H d token t1 t2 t3 = (Validated s u, d')"
  obtains (renewed) s0 rest where
      "db_select_session_join d (H token) = (u, s0) # rest"
      "t1 < expiresAt s0" "expiresAt s0 - fifteen_days \<le> t2"
      "s = s0\<lparr>expiresAt := t3 + thirty_days\<rparr>"
      "d' = db_update_expiresAt d (session_id s0) (t3 + thirty_days)"
  | (unchanged) rest where
      "db_select_session_join d (H token) = (u, s) # rest"
      "t1 < expiresAt s" "t2 < expiresAt s - fifteen_days" "d' = d"
  using assms
  by (auto simp: validateSessionToken_def Let_def split: list.splits if_splits)

section \<open>Storage after a sequence of operations\<close>

lemma createSession_hash:
  "H token = H token' \<Longrightarrow> createSession H d token uid now = createSession H d token' uid now"
  by (simp add: createSession_def)

lemma validate_hash:
  "H token = H token' \<Longrightarrow>
     validateSessionToken H d token t1 t2 t3 = validateSessionToken H d token' t1 t2 t3"
  by (simp add: validateSessionToken_def)

lemma getCurrent_hash:
  "map_option H token = map_option H token' \<Longrightarrow>
     getCurrentSessionCached H d token t1 t2 t3 t4 = getCurrentSessionCached H d token' t1 t2 t3 t4"
proof (cases token)
  case None
  assume "map_option H token = map_option H token'"
  with None show ?thesis by (cases token') simp_all
next
  case (Some tok)
  assume "map_option H token = map_option H token'"
  with Some obtain tok' where tok': "token' = Some tok'" "H tok = H tok'"
    by (cases token') simp_all
  from tok'(2) have "validateSessionToken H d tok t1 t2 t3 = validateSessionToken H d tok' t1 t2 t3"
    by (rule validate_hash)
  with Some tok'(1) show ?thesis by (simp add: getCurrentSessionCached_def)
qed

lemma step_hashed:
  "hashed H a = hashed H b \<Longrightarrow> step H d a = step H d b"
proof (cases a)
  case (CreateSession token uid now)
  assume "hashed H a = hashed H b"
  with CreateSession obtain token' where "b = CreateSession token' uid now" "H token = H token'"
    by (cases b) simp_all
  with CreateSession createSession_hash[of H token token' d uid now] show ?thesis by simp
next
  case (ValidateSessionToken token t1 t2 t3)
  assume "hashed H a = hashed H b"
  with ValidateSessionToken obtain token' where
    "b = ValidateSessionToken token' t1 t2 t3" "H token = H token'"
    by (cases b) simp_all
  with ValidateSessionToken validate_hash[of H token token' d t1 t2 t3] show ?thesis by simp
next
  case (InvalidateSession sid)
  assume "hashed H a = hashed H b"
  with InvalidateSession show ?thesis by (cases b) simp_all
next
  case (InvalidateAllSessions uid)
  assume "hashed H a = hashed H b"
  with InvalidateAllSessions show ?thesis by (cases b) simp_all
next
  case (GetCurrentSessionCached token t1 t2 t3 t4)
  assume "hashed H a = hashed H b"
  with GetCurrentSessionCached obtain token' where
    "b = GetCurrentSessionCached token' t1 t2 t3 t4" "map_option H token = map_option H token'"
    by (cases b) simp_all
  with GetCurrentSessionCached getCurrent_hash[of H token token' d t1 t2 t3 t4]
  show ?thesis by simp
qed

lemma run_hashed:
  "map (hashed H) ops = map (hashed H) ops' \<Longrightarrow> run H d ops = run H d ops'"
  unfolding run_def
proof (induction ops arbitrary: ops' d)
  case Nil
  then show ?case by simp
next
  case (Cons a ops)
  then obtain b rest where ops': "ops' = b # rest" "hashed H a = hashed H b"
    "map (hashed H) ops = map (hashed H) rest"
    by (cases ops') auto
  from ops'(2) have "step H d a = step H d b" by (rule step_hashed)
  with Cons.IH[OF ops'(3)] ops'(1) show ?case by simp
qed

lemma update_ids:
  "map session_id (sessionTable (db_update_expiresAt d sid e)) = map session_id (sessionTable d)"
proof -
  have "map session_id (map (\<lambda>s. if session_id s = sid then s\<lparr>expiresAt := e\<rparr> else s) ss)
      = map session_id ss" for ss :: "session list"
    by (induction ss) auto
  then show ?thesis
    unfolding db_update_expiresAt_def by (simp del: map_map)
qed

lemma delete_ids:
  "set (map session_id (sessionTable (db_delete_session d sid)))
     \<subseteq> set (map session_id (sessionTable d))"
  by (auto simp: db_delete_session_def)

lemma validate_snd_cases:
  "snd (validateSessionToken H d token t1 t2 t3) = d \<or>
   (\<exists>sid. snd (validateSessionToken H d token t1 t2 t3) = db_delete_session d sid) \<or>
   (\<exists>sid e. snd (validateSessionToken H d token t1 t2 t3) = db_update_expiresAt d sid e)"
  by (auto simp: validateSessionToken_def Let_def split: list.splits)

lemma validate_ids:
  "set (map session_id (sessionTable (snd (validateSessionToken H d token t1 t2 t3))))
     \<subseteq> set (map session_id (sessionTable d))"
  using validate_snd_cases[of H d token t1 t2 t3] delete_ids[of d] update_ids[of d]
  by (elim disjE exE) (simp_all del: set_map)

lemma validate_users:
  "userTable (snd (validateSessionToken H d token t1 t2 t3)) = userTable d"
  using validate_snd_cases[of H d token t1 t2 t3]
  by (elim disjE exE) (simp_all add: db_delete_session_def db_update_expiresAt_def)

lemma getCurrent_snd:
  "snd (getCurrentSessionCached H d token t1 t2 t3 t4) =
     (case token of None \<Rightarrow> d | Some tok \<Rightarrow> snd (validateSessionToken H d tok t1 t2 t3))"
  by (auto simp: getCurrentSessionCached_def Let_def
      split: option.splits prod.splits SessionValidationResult.splits)

lemma step_ids:
  "set (map session_id (sessionTable (step H d a)))
     \<subseteq> set (map session_id (sessionTable d)) \<union> set (created_ids H a)"
proof (cases a)
  case (CreateSession token uid now)
  then show ?thesis
    by (auto simp: createSession_def db_insert_session_def Let_def split: if_splits)
next
  case (ValidateSessionToken token t1 t2 t3)
  then show ?thesis using validate_ids[of H d token t1 t2 t3] by auto
next
  case (InvalidateSession sid)
  then show ?thesis by (auto simp: invalidateSession_def db_delete_session_def)
next
  case (InvalidateAllSessions uid)
  then show ?thesis by (auto simp: invalidateAllSessions_def db_delete_user_sessions_def)
next
  case (GetCurrentSessionCached token t1 t2 t3 t4)
  then show ?thesis
    using validate_ids[of H d _ t1 t2 t3] by (auto simp: getCurrent_snd split: option.splits)
qed

lemma step_users: "userTable (step H d a) = userTable d"
  by (cases a)
     (auto simp: createSession_def db_insert_session_def Let_def validate_users getCurrent_snd
        invalidateSession_def db_delete_session_def invalidateAllSessions_def
        db_delete_user_sessions_def split: if_splits option.splits)

lemma run_ids:
  "set (map session_id (sessionTable (run H d ops)))
     \<subseteq> set (map session_id (sessionTable d)) \<union> set (concat (map (created_ids H) ops))"
  unfolding run_def
proof (induction ops arbitrary: d)
  case Nil
  then show ?case by simp
next
  case (Cons a ops)
  from Cons.IH[of "step H d a"] step_ids[of H d a] show ?case by auto
qed

lemma run_users: "userTable (run H d ops) = userTable d"
  unfolding run_def by (induction ops arbitrary: d) (simp_all add: step_users)

section \<open>Facts about the cached lookup and the query parameters\<close>

lemma validated_after_renewal_test:
  assumes "validateSessionToken H d token t1 t2 t3 = (Validated s u, d')" and "t2 \<le> t3"
  shows "t2 + fifteen_days < expiresAt s"
  using assms(1)
proof (cases rule: validate_Validated_cases)
  case (renewed s0 rest)
  with assms(2) show ?thesis by (simp add: fifteen_days_def thirty_days_def)
next
  case (unchanged rest)
  then show ?thesis by simp
qed

lemma getCurrent_cases:
  assumes "getCurrentSessionCached H d token t1 t2 t3 t4 = (e, d')"
  obtains (none) "e = \<lparr>entry_value = NoSession, entry_tags = [], entry_life = None\<rparr>"
  | (some) tok s u where "token = Some tok"
      "validateSessionToken H d tok t1 t2 t3 = (Validated s u, d')"
      "e = \<lparr>entry_value = Validated s u, entry_tags = [''session:'' @ session_id s],
            entry_life = Some \<lparr>stale = 0, revalidate = max 0 ((expiresAt s - t4) div 1000),
                                expire = max 0 ((expiresAt s - t4) div 1000)\<rparr>\<rparr>"
  using assms
  by (auto simp: getCurrentSessionCached_def Let_def
      split: option.splits prod.splits SessionValidationResult.splits)

lemma searchParams_set_same:
  "filter (\<lambda>p. fst p = name) (searchParams_set ps name v) = [(name, v)]"
  by (induction ps name v rule: searchParams_set.induct) (auto simp: filter_empty_conv)

lemma searchParams_set_other:
  "filter (\<lambda>p. fst p \<noteq> name) (searchParams_set ps name v) = filter (\<lambda>p. fst p \<noteq> name) ps"
  by (induction ps name v rule: searchParams_set.induct) auto

section \<open>Creation followed by validation\<close>

text \<open>
  C1. For every token and every existing user: when \<^verbatim>\<open>createSession(token, userId)\<close>
  succeeds (its insertion is accepted), \<^verbatim>\<open>validateSessionToken(token)\<close> called at the
  same instant on the resulting storage returns the session that \<^verbatim>\<open>createSession\<close>
  returned, together with the user of that identifier, and leaves the storage as it is.
\<close>

theorem validate_after_create:
  assumes "createSession H d token uid now = Inr (s, d')"
    and "find (\<lambda>u. uid = user_id u) (userTable d) = Some u"
  shows "validateAt H d' token now = (Validated s u, d') \<and>
         session_id s = H token \<and> userId s = uid \<and> user_id u = uid \<and>
         expiresAt s = now + thirty_days"
proof -
  from assms(1) have fresh: "H token \<notin> session_id ` set (sessionTable d)"
    and s: "s = \<lparr>session_id = H token, userId = uid, expiresAt = now + thirty_days\<rparr>"
    and d': "d' = d\<lparr>sessionTable := sessionTable d @ [s]\<rparr>"
    by (auto simp: createSession_def db_insert_session_def Let_def split: if_splits)
  have "filter (\<lambda>r. session_id r = H token) (sessionTable d) = []"
    using fresh by (auto simp: filter_empty_conv image_iff)
  moreover from assms(2) obtain rest where
    "filter (\<lambda>u. uid = user_id u) (userTable d) = u # rest"
    by (auto dest: filter_find)
  ultimately have "db_select_session_join d' (H token) = (u, s) # map (\<lambda>u. (u, s)) rest"
    by (simp add: join_filter d' s)
  moreover from assms(2) have "user_id u = uid"
    by (auto dest: find_Some_iff[THEN iffD1])
  ultimately show ?thesis
    by (simp add: validateAt_def validateSessionToken_def Let_def s thirty_days_def
        fifteen_days_def)
qed

theorem validate_after_create_witness:
  "createSession (\<lambda>t. ''h:'' @ t)
     \<lparr>sessionTable = [], userTable = [\<lparr>user_id = 7, profile = ''ann''\<rparr>]\<rparr> ''tok'' 7 1000
   = Inr (\<lparr>session_id = ''h:tok'', userId = 7, expiresAt = 2592001000\<rparr>,
          \<lparr>sessionTable = [\<lparr>session_id = ''h:tok'', userId = 7, expiresAt = 2592001000\<rparr>],
           userTable = [\<lparr>user_id = 7, profile = ''ann''\<rparr>]\<rparr>)
   \<and> find (\<lambda>u. 7 = user_id u) [\<lparr>user_id = 7, profile = ''ann''\<rparr>]
       = Some \<lparr>user_id = 7, profile = ''ann''\<rparr>
   \<and> validateAt (\<lambda>t. ''h:'' @ t)
         \<lparr>sessionTable = [\<lparr>session_id = ''h:tok'', userId = 7, expiresAt = 2592001000\<rparr>],
          userTable = [\<lparr>user_id = 7, profile = ''ann''\<rparr>]\<rparr> ''tok'' 1000
       = (Validated \<lparr>session_id = ''h:tok'', userId = 7, expiresAt = 2592001000\<rparr>
            \<lparr>user_id = 7, profile = ''ann''\<rparr>,
          \<lparr>sessionTable = [\<lparr>session_id = ''h:tok'', userId = 7, expiresAt = 2592001000\<rparr>],
           userTable = [\<lparr>user_id = 7, profile = ''ann''\<rparr>]\<rparr>)"
proof -
  have created: "createSession (\<lambda>t. ''h:'' @ t)
     \<lparr>sessionTable = [], userTable = [\<lparr>user_id = 7, profile = ''ann''\<rparr>]\<rparr> ''tok'' 7 1000
   = Inr (\<lparr>session_id = ''h:tok'', userId = 7, expiresAt = 2592001000\<rparr>,
          \<lparr>sessionTable = [\<lparr>session_id = ''h:tok'', userId = 7, expiresAt = 2592001000\<rparr>],
           userTable = [\<lparr>user_id = 7, profile = ''ann''\<rparr>]\<rparr>)"
    by (simp add: createSession_def db_insert_session_def thirty_days_def Let_def)
  have found: "find (\<lambda>u. 7 = user_id u)
      (userTable \<lparr>sessionTable = [], userTable = [\<lparr>user_id = 7, profile = ''ann''\<rparr>]\<rparr>)
    = Some \<lparr>user_id = 7, profile = ''ann''\<rparr>"
    by simp
  from validate_after_create [OF created found] created found show ?thesis by simp
qed

section \<open>Sliding renewal\<close>

text \<open>
  C2. Let a session be stored under the hash of the token, with its owning user present.
  A validation at a time \<open>now\<close> within 15 days of the expiry and before it returns the
  session with the expiry \<open>now\<close> + 30 days and stores that expiry in the session's row,
  leaving every other row as it is. A validation earlier than 15 days before the expiry
  returns the session as stored and leaves the storage unchanged. In particular, for an
  expiry \<open>t0\<close> + 30 days, validating at \<open>t0\<close> + 20 days returns the expiry \<open>t0\<close> + 50 days,
  and validating the resulting storage at \<open>t0\<close> + 51 days returns no session.
\<close>

theorem sliding_renewal:
  assumes "session_pk d" and "s \<in> set (sessionTable d)" and "session_id s = H token"
    and "owner_of d s = Some u"
  shows "(expiresAt s - fifteen_days \<le> now \<and> now < expiresAt s \<longrightarrow>
            validateAt H d token now =
              (Validated (s\<lparr>expiresAt := now + thirty_days\<rparr>) u,
               d\<lparr>sessionTable :=
                    map (\<lambda>r. if r = s then s\<lparr>expiresAt := now + thirty_days\<rparr> else r)
                      (sessionTable d)\<rparr>))
       \<and> (now < expiresAt s - fifteen_days \<longrightarrow> validateAt H d token now = (Validated s u, d))
       \<and> (expiresAt s = t0 + days 30 \<longrightarrow>
            fst (validateAt H d token (t0 + days 20)) = Validated (s\<lparr>expiresAt := t0 + days 50\<rparr>) u \<and>
            fst (validateAt H (snd (validateAt H d token (t0 + days 20))) token (t0 + days 51))
              = NoSession)"
proof (intro conjI impI)
  assume "expiresAt s - fifteen_days \<le> now \<and> now < expiresAt s"
  then show "validateAt H d token now =
      (Validated (s\<lparr>expiresAt := now + thirty_days\<rparr>) u,
       d\<lparr>sessionTable :=
            map (\<lambda>r. if r = s then s\<lparr>expiresAt := now + thirty_days\<rparr> else r) (sessionTable d)\<rparr>)"
    by (simp add: validateAt_def validate_stored[where H=H and token=token, OF assms] update_stored[OF assms(1,2)])
next
  assume "now < expiresAt s - fifteen_days"
  then show "validateAt H d token now = (Validated s u, d)"
    by (simp add: validateAt_def validate_stored[where H=H and token=token, OF assms] fifteen_days_def)
next
  assume e: "expiresAt s = t0 + days 30"
  let ?s1 = "s\<lparr>expiresAt := t0 + days 50\<rparr>"
  let ?d1 = "db_update_expiresAt d (session_id s) (t0 + days 50)"
  have "\<not> expiresAt s \<le> t0 + days 20" "expiresAt s - fifteen_days \<le> t0 + days 20"
    "t0 + days 20 + thirty_days = t0 + days 50"
    by (simp_all add: e days_def fifteen_days_def thirty_days_def)
  then have first: "validateAt H d token (t0 + days 20) = (Validated ?s1 u, ?d1)"
    by (simp only: validateAt_def validate_stored[where H=H and token=token, OF assms] if_True
        if_False)
  then show "fst (validateAt H d token (t0 + days 20)) = Validated ?s1 u"
    by simp
  have "session_pk ?d1" using assms(1) by (simp add: update_pk)
  moreover have "?s1 \<in> set (sessionTable ?d1)" using assms(2) by (rule update_member)
  moreover have "session_id ?s1 = H token" using assms(3) by simp
  moreover have "owner_of ?d1 ?s1 = Some u" using assms(4) by (simp add: update_owner)
  ultimately have "validateAt H ?d1 token (t0 + days 51) =
      (NoSession, db_delete_session ?d1 (session_id ?s1))"
    by (simp add: validateAt_def validate_stored[where H=H and token=token] days_def)
  with first show "fst (validateAt H (snd (validateAt H d token (t0 + days 20))) token (t0 + days 51))
      = NoSession"
    by simp
qed

theorem sliding_renewal_witness:
  "createSession (\<lambda>t. ''h:'' @ t)
     \<lparr>sessionTable = [], userTable = [\<lparr>user_id = 7, profile = ''ann''\<rparr>]\<rparr> ''tok'' 7 0
   = Inr (\<lparr>session_id = ''h:tok'', userId = 7, expiresAt = days 30\<rparr>,
          \<lparr>sessionTable = [\<lparr>session_id = ''h:tok'', userId = 7, expiresAt = days 30\<rparr>],
           userTable = [\<lparr>user_id = 7, profile = ''ann''\<rparr>]\<rparr>)
   \<and> validateAt (\<lambda>t. ''h:'' @ t)
         \<lparr>sessionTable = [\<lparr>session_id = ''h:tok'', userId = 7, expiresAt = days 30\<rparr>],
          userTable = [\<lparr>user_id = 7, profile = ''ann''\<rparr>]\<rparr> ''tok'' (days 20)
       = (Validated \<lparr>session_id = ''h:tok'', userId = 7, expiresAt = days 50\<rparr>
            \<lparr>user_id = 7, profile = ''ann''\<rparr>,
          \<lparr>sessionTable = [\<lparr>session_id = ''h:tok'', userId = 7, expiresAt = days 50\<rparr>],
           userTable = [\<lparr>user_id = 7, profile = ''ann''\<rparr>]\<rparr>)
   \<and> validateAt (\<lambda>t. ''h:'' @ t)
         \<lparr>sessionTable = [\<lparr>session_id = ''h:tok'', userId = 7, expiresAt = days 30\<rparr>],
          userTable = [\<lparr>user_id = 7, profile = ''ann''\<rparr>]\<rparr> ''tok'' (days 14)
       = (Validated \<lparr>session_id = ''h:tok'', userId = 7, expiresAt = days 30\<rparr>
            \<lparr>user_id = 7, profile = ''ann''\<rparr>,
          \<lparr>sessionTable = [\<lparr>session_id = ''h:tok'', userId = 7, expiresAt = days 30\<rparr>],
           userTable = [\<lparr>user_id = 7, profile = ''ann''\<rparr>]\<rparr>)
   \<and> fst (validateAt (\<lambda>t. ''h:'' @ t)
         \<lparr>sessionTable = [\<lparr>session_id = ''h:tok'', userId = 7, expiresAt = days 50\<rparr>],
          userTable = [\<lparr>user_id = 7, profile = ''ann''\<rparr>]\<rparr> ''tok'' (days 51))
       = NoSession"
proof -
  let ?H = "\<lambda>t. ''h:'' @ t"
  let ?u = "\<lparr>user_id = 7, profile = ''ann''\<rparr>"
  let ?s = "\<lparr>session_id = ''h:tok'', userId = 7, expiresAt = days 30\<rparr>"
  let ?d = "\<lparr>sessionTable = [?s], userTable = [?u]\<rparr>"
  have created: "createSession ?H \<lparr>sessionTable = [], userTable = [?u]\<rparr> ''tok'' 7 0 = Inr (?s, ?d)"
    by (simp add: session_defs)
  have pk: "session_pk ?d" and stored: "?s \<in> set (sessionTable ?d)"
    and hash: "session_id ?s = ?H ''tok''" and owner: "owner_of ?d ?s = Some ?u"
    by (simp_all add: session_defs)
  note renewal = sliding_renewal [where H = ?H and token = "''tok''", OF pk stored hash owner]
  from renewal [of "days 20" 0] renewal [of "days 14" 0] created show ?thesis
    by (simp add: days_def fifteen_days_def thirty_days_def)
qed

section \<open>Expired sessions\<close>

text \<open>
  C3. Let a session be stored under the hash of the token, with its owning user present.
  A validation whose clock reading is at or after the expiry returns the result
  \<^verbatim>\<open>{ session: null, user: null }\<close> as an ordinary value, and the storage it leaves has
  the session's row removed, every other row kept, and no row under that hash.
\<close>

theorem expired_session_is_deleted:
  assumes "session_pk d" and "s \<in> set (sessionTable d)" and "session_id s = H token"
    and "owner_of d s = Some u" and "expiresAt s \<le> t1"
  shows "validateSessionToken H d token t1 t2 t3 =
           (NoSession, d\<lparr>sessionTable := removeAll s (sessionTable d)\<rparr>)
         \<and> H token \<notin> session_id ` set (removeAll s (sessionTable d))"
proof
  from assms(5) show "validateSessionToken H d token t1 t2 t3 =
      (NoSession, d\<lparr>sessionTable := removeAll s (sessionTable d)\<rparr>)"
    by (simp add: validate_stored[where H=H and token=token, OF assms(1-4)] delete_stored[OF assms(1,2)])
  show "H token \<notin> session_id ` set (removeAll s (sessionTable d))"
  proof
    assume "H token \<in> session_id ` set (removeAll s (sessionTable d))"
    then obtain r where r: "r \<in> set (sessionTable d)" "r \<noteq> s" "session_id r = H token"
      by (auto simp: image_iff) metis
    with assms(3) have "session_id r = session_id s" by simp
    with pk_eq_iff[OF assms(1,2) r(1)] r(2) show False by simp
  qed
qed


theorem expired_session_is_deleted_witness:
  "validateSessionToken (\<lambda>t. ''h:'' @ t)
     \<lparr>sessionTable = [\<lparr>session_id = ''h:old'', userId = 7, expiresAt = 500\<rparr>,
                      \<lparr>session_id = ''h:new'', userId = 7, expiresAt = 900\<rparr>],
      userTable = [\<lparr>user_id = 7, profile = ''ann''\<rparr>]\<rparr> ''old'' 500 500 500
   = (NoSession,
      \<lparr>sessionTable = [\<lparr>session_id = ''h:new'', userId = 7, expiresAt = 900\<rparr>],
       userTable = [\<lparr>user_id = 7, profile = ''ann''\<rparr>]\<rparr>)"
proof -
  let ?H = "\<lambda>t. ''h:'' @ t"
  let ?u = "\<lparr>user_id = 7, profile = ''ann''\<rparr>"
  let ?s = "\<lparr>session_id = ''h:old'', userId = 7, expiresAt = 500\<rparr>"
  let ?d = "\<lparr>sessionTable = [?s, \<lparr>session_id = ''h:new'', userId = 7, expiresAt = 900\<rparr>],
             userTable = [?u]\<rparr>"
  have pk: "session_pk ?d" and stored: "?s \<in> set (sessionTable ?d)"
    and hash: "session_id ?s = ?H ''old''" and owner: "owner_of ?d ?s = Some ?u"
    and expired: "expiresAt ?s \<le> 500"
    by (simp_all add: session_defs)
  from expired_session_is_deleted [where H = ?H and token = "''old''" and ?t2.0 = 500
      and ?t3.0 = 500, OF pk stored hash owner expired]
  show ?thesis by simp
qed

section \<open>Only the hash of a token reaches the storage\<close>

text \<open>
  C4. \<^verbatim>\<open>createSession\<close> stores one row, whose identifier is the hash of the token and
  whose other fields do not depend on the token. Two tokens of the same hash are
  indistinguishable to \<^verbatim>\<open>createSession\<close> and to \<^verbatim>\<open>validateSessionToken\<close>, so the lookup
  goes by the hash alone. For every sequence of session-manager operations: two
  sequences that agree once each token is replaced by its hash leave the same storage;
  every session identifier in the final storage is one of the initial storage or the hash
  of a token given to \<^verbatim>\<open>createSession\<close>; and the user table is never written.
\<close>

theorem raw_token_never_persisted:
  "(createSession H d token uid now = Inr (s, d') \<longrightarrow>
      s = \<lparr>session_id = H token, userId = uid, expiresAt = now + thirty_days\<rparr> \<and>
      d' = d\<lparr>sessionTable := sessionTable d @ [s]\<rparr>)
   \<and> (H token = H token' \<longrightarrow>
        createSession H d token uid now = createSession H d token' uid now \<and>
        validateSessionToken H d token t1 t2 t3 = validateSessionToken H d token' t1 t2 t3)
   \<and> (map (hashed H) ops = map (hashed H) ops' \<longrightarrow> run H d ops = run H d ops')
   \<and> set (map session_id (sessionTable (run H d ops)))
        \<subseteq> set (map session_id (sessionTable d)) \<union> set (concat (map (created_ids H) ops))
   \<and> userTable (run H d ops) = userTable d"
proof (intro conjI impI)
  assume "createSession H d token uid now = Inr (s, d')"
  then show "s = \<lparr>session_id = H token, userId = uid, expiresAt = now + thirty_days\<rparr>"
    and "d' = d\<lparr>sessionTable := sessionTable d @ [s]\<rparr>"
    by (auto simp: createSession_def db_insert_session_def Let_def split: if_splits)
next
  assume "H token = H token'"
  then show "createSession H d token uid now = createSession H d token' uid now"
    and "validateSessionToken H d token t1 t2 t3 = validateSessionToken H d token' t1 t2 t3"
    by (simp_all add: createSession_def validateSessionToken_def)
next
  assume "map (hashed H) ops = map (hashed H) ops'"
  then show "run H d ops = run H d ops'" by (rule run_hashed)
next
  show "set (map session_id (sessionTable (run H d ops)))
        \<subseteq> set (map session_id (sessionTable d)) \<union> set (concat (map (created_ids H) ops))"
    by (rule run_ids)
  show "userTable (run H d ops) = userTable d" by (rule run_users)
qed

theorem raw_token_never_persisted_witness:
  "createSession (\<lambda>t. ''h:'' @ take 2 t)
     \<lparr>sessionTable = [], userTable = [\<lparr>user_id = 7, profile = ''ann''\<rparr>]\<rparr> ''tok1'' 7 0
   = Inr (\<lparr>session_id = ''h:to'', userId = 7, expiresAt = days 30\<rparr>,
          \<lparr>sessionTable = [\<lparr>session_id = ''h:to'', userId = 7, expiresAt = days 30\<rparr>],
           userTable = [\<lparr>user_id = 7, profile = ''ann''\<rparr>]\<rparr>)
   \<and> (\<lambda>t. ''h:'' @ take 2 t) ''tok1'' = (\<lambda>t. ''h:'' @ take 2 t) ''tok2''
   \<and> run (\<lambda>t. ''h:'' @ take 2 t)
        \<lparr>sessionTable = [], userTable = [\<lparr>user_id = 7, profile = ''ann''\<rparr>]\<rparr>
        [CreateSession ''tok1'' 7 0, ValidateSessionToken ''tok1'' (days 20) (days 20) (days 20)]
     = \<lparr>sessionTable = [\<lparr>session_id = ''h:to'', userId = 7, expiresAt = days 50\<rparr>],
        userTable = [\<lparr>user_id = 7, profile = ''ann''\<rparr>]\<rparr>
   \<and> run (\<lambda>t. ''h:'' @ take 2 t)
        \<lparr>sessionTable = [], userTable = [\<lparr>user_id = 7, profile = ''ann''\<rparr>]\<rparr>
        [CreateSession ''tok2'' 7 0, ValidateSessionToken ''tok2'' (days 20) (days 20) (days 20)]
     = \<lparr>sessionTable = [\<lparr>session_id = ''h:to'', userId = 7, expiresAt = days 50\<rparr>],
        userTable = [\<lparr>user_id = 7, profile = ''ann''\<rparr>]\<rparr>
   \<and> set (concat (map (created_ids (\<lambda>t. ''h:'' @ take 2 t))
        [CreateSession ''tok1'' 7 0, ValidateSessionToken ''tok1'' (days 20) (days 20) (days 20)]))
     = {''h:to''}"
proof -
  let ?H = "\<lambda>t. ''h:'' @ take 2 t"
  let ?d = "\<lparr>sessionTable = [], userTable = [\<lparr>user_id = 7, profile = ''ann''\<rparr>]\<rparr>"
  let ?ops = "[CreateSession ''tok1'' 7 0, ValidateSessionToken ''tok1'' (days 20) (days 20) (days 20)]"
  let ?ops' = "[CreateSession ''tok2'' 7 0, ValidateSessionToken ''tok2'' (days 20) (days 20) (days 20)]"
  have created: "createSession ?H ?d ''tok1'' 7 0
      = Inr (\<lparr>session_id = ''h:to'', userId = 7, expiresAt = days 30\<rparr>,
          \<lparr>sessionTable = [\<lparr>session_id = ''h:to'', userId = 7, expiresAt = days 30\<rparr>],
           userTable = [\<lparr>user_id = 7, profile = ''ann''\<rparr>]\<rparr>)"
    by (simp add: session_defs)
  have same: "map (hashed ?H) ?ops = map (hashed ?H) ?ops'" "?H ''tok1'' = ?H ''tok2''"
    by simp_all
  have ran: "run ?H ?d ?ops
      = \<lparr>sessionTable = [\<lparr>session_id = ''h:to'', userId = 7, expiresAt = days 50\<rparr>],
         userTable = [\<lparr>user_id = 7, profile = ''ann''\<rparr>]\<rparr>"
    by (simp add: run_def session_defs)
  have ids: "set (concat (map (created_ids ?H) ?ops)) = {''h:to''}"
    by simp
  from raw_token_never_persisted [of ?H ?d "''tok1''" 7 0 "\<lparr>session_id = ''h:to'', userId = 7, expiresAt = days 30\<rparr>"
      "\<lparr>sessionTable = [\<lparr>session_id = ''h:to'', userId = 7, expiresAt = days 30\<rparr>],
           userTable = [\<lparr>user_id = 7, profile = ''ann''\<rparr>]\<rparr>" "''tok2''" 0 0 0 ?ops ?ops']
  have "map (hashed ?H) ?ops = map (hashed ?H) ?ops' \<longrightarrow> run ?H ?d ?ops = run ?H ?d ?ops'"
    by (elim conjE)
  with same(1) have "run ?H ?d ?ops' = run ?H ?d ?ops" by (simp only:)
  with ran have ran': "run ?H ?d ?ops'
      = \<lparr>sessionTable = [\<lparr>session_id = ''h:to'', userId = 7, expiresAt = days 50\<rparr>],
         userTable = [\<lparr>user_id = 7, profile = ''ann''\<rparr>]\<rparr>"
    by (simp only:)
  from created same(2) ran ran' ids show ?thesis by (intro conjI)
qed

section \<open>Validity of a session\<close>

text \<open>
  C5. With unique session identifiers, \<^verbatim>\<open>validateSessionToken\<close> returns a session and a
  user exactly when a session row is stored under the hash of the token, its expiry lies
  after the clock reading of the expiry test, and a user row carries the session's user
  identifier. When no user row carries it, the result is no session and the storage is
  left alone, whatever the expiry of the session row.
\<close>

theorem valid_iff_present_unexpired_owned:
  assumes "session_pk d"
  shows "((fst (validateSessionToken H d token t1 t2 t3) \<noteq> NoSession) =
            (\<exists>s\<in>set (sessionTable d). session_id s = H token \<and> t1 < expiresAt s \<and>
               (\<exists>u\<in>set (userTable d). user_id u = userId s)))
       \<and> (\<forall>s\<in>set (sessionTable d).
            session_id s = H token \<and> (\<forall>u\<in>set (userTable d). user_id u \<noteq> userId s) \<longrightarrow>
            validateSessionToken H d token t1 t2 t3 = (NoSession, d))"
    (is "(?valid = ?rhs) \<and> ?orphan")
proof (cases "H token \<in> session_id ` set (sessionTable d)")
  case False
  then have "validateSessionToken H d token t1 t2 t3 = (NoSession, d)"
    by (simp add: validateSessionToken_def join_absent)
  moreover from False have "\<not> ?rhs" by (auto simp: image_iff)
  ultimately show ?thesis by simp
next
  case True
  then obtain s where s: "s \<in> set (sessionTable d)" "session_id s = H token"
    by auto
  have uniq: "r = s" if "r \<in> set (sessionTable d)" "session_id r = H token" for r
    using pk_eq_iff[OF assms s(1) that(1)] that(2) s(2) by simp
  have rhs: "?rhs = (t1 < expiresAt s \<and> owner_of d s \<noteq> None)"
  proof
    assume ?rhs
    then obtain r where "r \<in> set (sessionTable d)" "session_id r = H token" "t1 < expiresAt r"
      "\<exists>u\<in>set (userTable d). user_id u = userId r" by blast
    moreover from this have "r = s" by (simp add: uniq)
    ultimately show "t1 < expiresAt s \<and> owner_of d s \<noteq> None"
      by (simp add: owner_of_None_iff)
  next
    assume "t1 < expiresAt s \<and> owner_of d s \<noteq> None"
    with s show ?rhs unfolding owner_of_None_iff by blast
  qed
  show ?thesis
  proof (cases "owner_of d s")
    case None
    then have "db_select_session_join d (H token) = []"
      using join_no_owner[of d s] assms s by (simp add: session_pk_def owner_of_def)
    then have "validateSessionToken H d token t1 t2 t3 = (NoSession, d)"
      by (simp add: validateSessionToken_def)
    with None rhs show ?thesis by simp
  next
    case (Some u)
    note v = validate_stored[where H=H and token=token, OF assms s Some]
    have "?valid = (t1 < expiresAt s)"
      by (simp add: v)
    moreover have ?orphan
    proof (intro ballI impI)
      fix r assume "r \<in> set (sessionTable d)"
        and r: "session_id r = H token \<and> (\<forall>u\<in>set (userTable d). user_id u \<noteq> userId r)"
      then have "r = s" by (simp add: uniq)
      with r have "owner_of d s = None" by (simp add: owner_of_None_iff)
      with Some show "validateSessionToken H d token t1 t2 t3 = (NoSession, d)" by simp
    qed
    ultimately show ?thesis using rhs Some by simp
  qed
qed

theorem valid_iff_present_unexpired_owned_witness:
  "session_pk \<lparr>sessionTable = [\<lparr>session_id = ''h:a'', userId = 7, expiresAt = 900\<rparr>,
                                \<lparr>session_id = ''h:b'', userId = 8, expiresAt = 900\<rparr>],
               userTable = [\<lparr>user_id = 7, profile = ''ann''\<rparr>]\<rparr>
   \<and> fst (validateSessionToken (\<lambda>t. ''h:'' @ t)
        \<lparr>sessionTable = [\<lparr>session_id = ''h:a'', userId = 7, expiresAt = 900\<rparr>,
                         \<lparr>session_id = ''h:b'', userId = 8, expiresAt = 900\<rparr>],
         userTable = [\<lparr>user_id = 7, profile = ''ann''\<rparr>]\<rparr> ''a'' 100 100 100) \<noteq> NoSession
   \<and> validateSessionToken (\<lambda>t. ''h:'' @ t)
        \<lparr>sessionTable = [\<lparr>session_id = ''h:a'', userId = 7, expiresAt = 900\<rparr>,
                         \<lparr>session_id = ''h:b'', userId = 8, expiresAt = 900\<rparr>],
         userTable = [\<lparr>user_id = 7, profile = ''ann''\<rparr>]\<rparr> ''b'' 100 100 100
       = (NoSession,
          \<lparr>sessionTable = [\<lparr>session_id = ''h:a'', userId = 7, expiresAt = 900\<rparr>,
                           \<lparr>session_id = ''h:b'', userId = 8, expiresAt = 900\<rparr>],
           userTable = [\<lparr>user_id = 7, profile = ''ann''\<rparr>]\<rparr>)"
proof -
  let ?H = "\<lambda>t. ''h:'' @ t"
  let ?d = "\<lparr>sessionTable = [\<lparr>session_id = ''h:a'', userId = 7, expiresAt = 900\<rparr>,
                              \<lparr>session_id = ''h:b'', userId = 8, expiresAt = 900\<rparr>],
             userTable = [\<lparr>user_id = 7, profile = ''ann''\<rparr>]\<rparr>"
  have pk: "session_pk ?d" by (simp add: session_pk_def)
  note iff = valid_iff_present_unexpired_owned [where H = ?H and ?t1.0 = 100 and ?t2.0 = 100
      and ?t3.0 = 100, OF pk]
  from iff [of "''a''"] iff [of "''b''"] pk show ?thesis by simp
qed

section \<open>The cache entry of the current-session lookup\<close>

text \<open>
  C6 (as amended). \<^verbatim>\<open>getCurrentSession\<close> hands the value of the cookie \<^verbatim>\<open>session\<close>, or
  null, to the cached lookup. Every call of the cached lookup returns a value that is
  cached, the result without a session included. An entry that holds a session carries the one tag
  \<^verbatim>\<open>session:\<close> followed by the session identifier, and the lifetime
  \<open>max 0 \<lfloor>(expiresAt - now) / 1000\<rfloor>\<close> seconds for both \<^verbatim>\<open>revalidate\<close> and \<^verbatim>\<open>expire\<close>, with
  \<^verbatim>\<open>stale\<close> 0; when the session has not expired at \<open>now\<close>, which holds whenever \<open>now\<close> is
  read at most 15 days after the renewal test, the entry expires no later than the
  session. An entry without a session carries no tag and no declared lifetime.
\<close>

theorem cached_entry_tag_and_lifetime:
  assumes "getCurrentSessionCached H d token t1 t2 t3 t4 = (e, d')"
  shows "getCurrentSession H d store t1 t2 t3 t4 =
           getCurrentSessionCached H d
             (case store ''session'' of None \<Rightarrow> None | Some c \<Rightarrow> Some (cookie_value c))
             t1 t2 t3 t4
       \<and> (entry_value e = NoSession \<longrightarrow> entry_tags e = [] \<and> entry_life e = None)
       \<and> (\<forall>s u. entry_value e = Validated s u \<longrightarrow>
             entry_tags e = [''session:'' @ session_id s] \<and>
             entry_life e = Some \<lparr>stale = 0, revalidate = max 0 ((expiresAt s - t4) div 1000),
                                   expire = max 0 ((expiresAt s - t4) div 1000)\<rparr> \<and>
             (t4 \<le> expiresAt s \<longrightarrow>
                t4 + 1000 * max 0 ((expiresAt s - t4) div 1000) \<le> expiresAt s) \<and>
             (t2 \<le> t3 \<and> t4 \<le> t2 + fifteen_days \<longrightarrow>
                t4 + 1000 * max 0 ((expiresAt s - t4) div 1000) \<le> expiresAt s))"
  using assms
proof (cases rule: getCurrent_cases)
  case none
  then show ?thesis by (simp add: getCurrentSession_def map_option_case)
next
  case (some tok s u)
  have floor: "t4 + 1000 * max 0 ((expiresAt s - t4) div 1000) \<le> expiresAt s"
    if "t4 \<le> expiresAt s"
  proof -
    from that have "0 \<le> (expiresAt s - t4) div 1000" by simp
    moreover have "1000 * ((expiresAt s - t4) div 1000) \<le> expiresAt s - t4"
      by simp
    ultimately show ?thesis by (simp add: max_def)
  qed
  have early: "t4 \<le> expiresAt s" if "t2 \<le> t3 \<and> t4 \<le> t2 + fifteen_days"
    using validated_after_renewal_test[OF some(2)] that by simp
  have a: "t4 \<le> expiresAt s \<longrightarrow>
      t4 + 1000 * max 0 ((expiresAt s - t4) div 1000) \<le> expiresAt s"
    using floor by blast
  have b: "t2 \<le> t3 \<and> t4 \<le> t2 + fifteen_days \<longrightarrow>
      t4 + 1000 * max 0 ((expiresAt s - t4) div 1000) \<le> expiresAt s"
    using floor early by blast
  from a b show ?thesis unfolding some(3) by (simp add: getCurrentSession_def map_option_case)
qed


theorem cached_entry_tag_and_lifetime_witness:
  "getCurrentSessionCached (\<lambda>t. ''h:'' @ t)
     \<lparr>sessionTable = [\<lparr>session_id = ''h:tok'', userId = 7, expiresAt = days 30 + 999\<rparr>],
      userTable = [\<lparr>user_id = 7, profile = ''ann''\<rparr>]\<rparr> (Some ''tok'')
     (days 1) (days 1) (days 1) (days 1)
   = (\<lparr>entry_value = Validated \<lparr>session_id = ''h:tok'', userId = 7, expiresAt = days 30 + 999\<rparr>
                          \<lparr>user_id = 7, profile = ''ann''\<rparr>,
       entry_tags = [''session:h:tok''],
       entry_life = Some \<lparr>stale = 0, revalidate = 2505600, expire = 2505600\<rparr>\<rparr>,
      \<lparr>sessionTable = [\<lparr>session_id = ''h:tok'', userId = 7, expiresAt = days 30 + 999\<rparr>],
       userTable = [\<lparr>user_id = 7, profile = ''ann''\<rparr>]\<rparr>)
   \<and> days 1 + 1000 * max 0 ((days 30 + 999 - days 1) div 1000) \<le> days 30 + 999"
proof -
  let ?H = "\<lambda>t. ''h:'' @ t"
  let ?s = "\<lparr>session_id = ''h:tok'', userId = 7, expiresAt = days 30 + 999\<rparr>"
  let ?u = "\<lparr>user_id = 7, profile = ''ann''\<rparr>"
  let ?d = "\<lparr>sessionTable = [?s], userTable = [?u]\<rparr>"
  let ?e = "\<lparr>entry_value = Validated ?s ?u, entry_tags = [''session:h:tok''],
       entry_life = Some \<lparr>stale = 0, revalidate = 2505600, expire = 2505600\<rparr>\<rparr>"
  have looked_up: "getCurrentSessionCached ?H ?d (Some ''tok'') (days 1) (days 1) (days 1) (days 1)
      = (?e, ?d)"
    by (simp add: getCurrentSessionCached_def session_defs)
  have "entry_value ?e = Validated ?s ?u" and "days 1 \<le> expiresAt ?s"
    by (simp_all add: days_def)
  with cached_entry_tag_and_lifetime [OF looked_up, of Map.empty]
  have "days 1 + 1000 * max 0 ((expiresAt ?s - days 1) div 1000) \<le> expiresAt ?s"
    by blast
  with looked_up show ?thesis by simp
qed


text \<open>
  As stated, with every cached entry tagged by a session identifier and given the
  session's remaining lifetime, C6 fails: the lookup of a token without a stored session
  yields an entry with no tag and no declared lifetime.
\<close>

theorem cached_no_session_untagged_counterexample:
  "entry_value (fst (getCurrentSessionCached ((@) ''h:'')
      \<lparr>sessionTable = [], userTable = [\<lparr>user_id = 7, profile = ''ann''\<rparr>]\<rparr>
      (Some ''tok'') 1000 1000 1000 1000)) = NoSession
   \<and> entry_tags (fst (getCurrentSessionCached ((@) ''h:'')
      \<lparr>sessionTable = [], userTable = [\<lparr>user_id = 7, profile = ''ann''\<rparr>]\<rparr>
      (Some ''tok'') 1000 1000 1000 1000)) = []
   \<and> entry_life (fst (getCurrentSessionCached ((@) ''h:'')
      \<lparr>sessionTable = [], userTable = [\<lparr>user_id = 7, profile = ''ann''\<rparr>]\<rparr>
      (Some ''tok'') 1000 1000 1000 1000)) = None"
  by (simp add: getCurrentSessionCached_def session_defs)

section \<open>Invalidation\<close>

text \<open>
  C7. After \<^verbatim>\<open>invalidateAllSessions(userId)\<close> no stored session belongs to that user,
  the sessions of all other users are stored as before, in the same order, and the user
  table is as before. When no stored session belongs to the user,
  \<^verbatim>\<open>invalidateAllSessions\<close> leaves the storage unchanged; when no stored session has
  the identifier, so does \<^verbatim>\<open>invalidateSession\<close>. Either operation applied twice gives
  what it gives applied once. Neither has an error path.
\<close>

theorem invalidate_all_sessions_frame:
  "(\<forall>s\<in>set (sessionTable (invalidateAllSessions d uid)). userId s \<noteq> uid)
   \<and> filter (\<lambda>s. userId s \<noteq> uid) (sessionTable (invalidateAllSessions d uid))
       = filter (\<lambda>s. userId s \<noteq> uid) (sessionTable d)
   \<and> userTable (invalidateAllSessions d uid) = userTable d
   \<and> ((\<forall>s\<in>set (sessionTable d). userId s \<noteq> uid) \<longrightarrow> invalidateAllSessions d uid = d)
   \<and> ((\<forall>s\<in>set (sessionTable d). session_id s \<noteq> sid) \<longrightarrow> invalidateSession d sid = d)
   \<and> invalidateAllSessions (invalidateAllSessions d uid) uid = invalidateAllSessions d uid
   \<and> invalidateSession (invalidateSession d sid) sid = invalidateSession d sid"
  by (simp add: invalidateAllSessions_def invalidateSession_def db_delete_user_sessions_def
      db_delete_session_def)

theorem invalidate_all_sessions_frame_witness:
  "invalidateAllSessions
     \<lparr>sessionTable = [\<lparr>session_id = ''a'', userId = 7, expiresAt = 900\<rparr>,
                      \<lparr>session_id = ''b'', userId = 8, expiresAt = 800\<rparr>,
                      \<lparr>session_id = ''c'', userId = 7, expiresAt = 700\<rparr>],
      userTable = [\<lparr>user_id = 7, profile = ''ann''\<rparr>, \<lparr>user_id = 8, profile = ''bob''\<rparr>]\<rparr> 7
   = \<lparr>sessionTable = [\<lparr>session_id = ''b'', userId = 8, expiresAt = 800\<rparr>],
      userTable = [\<lparr>user_id = 7, profile = ''ann''\<rparr>, \<lparr>user_id = 8, profile = ''bob''\<rparr>]\<rparr>
   \<and> invalidateAllSessions
     \<lparr>sessionTable = [\<lparr>session_id = ''b'', userId = 8, expiresAt = 800\<rparr>],
      userTable = [\<lparr>user_id = 7, profile = ''ann''\<rparr>, \<lparr>user_id = 8, profile = ''bob''\<rparr>]\<rparr> 7
   = \<lparr>sessionTable = [\<lparr>session_id = ''b'', userId = 8, expiresAt = 800\<rparr>],
      userTable = [\<lparr>user_id = 7, profile = ''ann''\<rparr>, \<lparr>user_id = 8, profile = ''bob''\<rparr>]\<rparr>
   \<and> invalidateSession
     \<lparr>sessionTable = [\<lparr>session_id = ''b'', userId = 8, expiresAt = 800\<rparr>],
      userTable = [\<lparr>user_id = 7, profile = ''ann''\<rparr>, \<lparr>user_id = 8, profile = ''bob''\<rparr>]\<rparr> ''a''
   = \<lparr>sessionTable = [\<lparr>session_id = ''b'', userId = 8, expiresAt = 800\<rparr>],
      userTable = [\<lparr>user_id = 7, profile = ''ann''\<rparr>, \<lparr>user_id = 8, profile = ''bob''\<rparr>]\<rparr>"
proof -
  let ?d = "\<lparr>sessionTable = [\<lparr>session_id = ''a'', userId = 7, expiresAt = 900\<rparr>,
                      \<lparr>session_id = ''b'', userId = 8, expiresAt = 800\<rparr>,
                      \<lparr>session_id = ''c'', userId = 7, expiresAt = 700\<rparr>],
      userTable = [\<lparr>user_id = 7, profile = ''ann''\<rparr>, \<lparr>user_id = 8, profile = ''bob''\<rparr>]\<rparr>"
  let ?d' = "\<lparr>sessionTable = [\<lparr>session_id = ''b'', userId = 8, expiresAt = 800\<rparr>],
      userTable = [\<lparr>user_id = 7, profile = ''ann''\<rparr>, \<lparr>user_id = 8, profile = ''bob''\<rparr>]\<rparr>"
  have removed: "invalidateAllSessions ?d 7 = ?d'"
    by (simp add: invalidateAllSessions_def db_delete_user_sessions_def)
  have none7: "\<forall>s\<in>set (sessionTable ?d'). userId s \<noteq> 7"
    and nonea: "\<forall>s\<in>set (sessionTable ?d'). session_id s \<noteq> ''a''"
    by simp_all
  from invalidate_all_sessions_frame [of ?d' 7 "''a''"] none7 nonea removed
  show ?thesis by (simp only: simp_thms)
qed

section \<open>The response of the login-initiation handler\<close>

text \<open>
  C8. \<^verbatim>\<open>GET\<close> answers with status 302 and the single header \<^verbatim>\<open>Location\<close>, whose value is
  the rendering of the authorization URL built from the state, the code verifier and the
  scopes \<^verbatim>\<open>openid\<close> and \<^verbatim>\<open>profile\<close>, in which \<^verbatim>\<open>prompt\<close> occurs once, with the value
  \<^verbatim>\<open>select_account\<close>, and every other parameter is as the provider client built it. It
  sets the cookies \<^verbatim>\<open>google_oauth_state\<close> and \<^verbatim>\<open>google_code_verifier\<close> to the state and the
  code verifier, each with path \<^verbatim>\<open>/\<close>, HTTP-only, same-site lax, a maximum age of 10 times
  60 seconds, and secure exactly when \<^verbatim>\<open>NODE_ENV\<close> is \<^verbatim>\<open>production\<close>; other cookies are
  untouched.
\<close>

theorem oauth_login_initiation:
  "status (fst (GET createAuthorizationURL toString NODE_ENV state codeVerifier cookieStore)) = 302
   \<and> headers (fst (GET createAuthorizationURL toString NODE_ENV state codeVerifier cookieStore))
       = [(''Location'',
           toString ((createAuthorizationURL state codeVerifier [''openid'', ''profile''])
             \<lparr>searchParams :=
                searchParams_set
                  (searchParams (createAuthorizationURL state codeVerifier [''openid'', ''profile'']))
                  ''prompt'' ''select_account''\<rparr>))]
   \<and> filter (\<lambda>p. fst p = ''prompt'')
         (searchParams_set
            (searchParams (createAuthorizationURL state codeVerifier [''openid'', ''profile'']))
            ''prompt'' ''select_account'')
       = [(''prompt'', ''select_account'')]
   \<and> filter (\<lambda>p. fst p \<noteq> ''prompt'')
         (searchParams_set
            (searchParams (createAuthorizationURL state codeVerifier [''openid'', ''profile'']))
            ''prompt'' ''select_account'')
       = filter (\<lambda>p. fst p \<noteq> ''prompt'')
           (searchParams (createAuthorizationURL state codeVerifier [''openid'', ''profile'']))
   \<and> snd (GET createAuthorizationURL toString NODE_ENV state codeVerifier cookieStore)
       = cookieStore
           (''google_oauth_state'' \<mapsto>
              \<lparr>cookie_value = state, path = ''/'', httpOnly = True,
               secure = (NODE_ENV = Some ''production''), maxAge = Some (10 * 60),
               sameSite = ''lax''\<rparr>,
            ''google_code_verifier'' \<mapsto>
              \<lparr>cookie_value = codeVerifier, path = ''/'', httpOnly = True,
               secure = (NODE_ENV = Some ''production''), maxAge = Some (10 * 60),
               sameSite = ''lax''\<rparr>)"
  by (simp add: GET_def Let_def cookie_set_def searchParams_set_same searchParams_set_other)

theorem oauth_login_initiation_witness:
  "fst (GET (\<lambda>st cv scopes. \<lparr>url_base = ''https://idp.example/auth'',
                                 searchParams = [(''state'', st), (''prompt'', ''none'')]\<rparr>)
          (\<lambda>u. url_base u @ concat (map (\<lambda>p. ''&'' @ fst p @ ''='' @ snd p) (searchParams u)))
          (Some ''production'') ''S'' ''V'' Map.empty)
   = \<lparr>status = 302,
      headers = [(''Location'', ''https://idp.example/auth&state=S&prompt=select_account'')],
      body = None\<rparr>
   \<and> snd (GET (\<lambda>st cv scopes. \<lparr>url_base = ''https://idp.example/auth'',
                                 searchParams = [(''state'', st), (''prompt'', ''none'')]\<rparr>)
          (\<lambda>u. url_base u @ concat (map (\<lambda>p. ''&'' @ fst p @ ''='' @ snd p) (searchParams u)))
          (Some ''production'') ''S'' ''V'' Map.empty)
   = [''google_oauth_state'' \<mapsto>
        \<lparr>cookie_value = ''S'', path = ''/'', httpOnly = True, secure = True,
         maxAge = Some 600, sameSite = ''lax''\<rparr>,
      ''google_code_verifier'' \<mapsto>
        \<lparr>cookie_value = ''V'', path = ''/'', httpOnly = True, secure = True,
         maxAge = Some 600, sameSite = ''lax''\<rparr>]"
proof -
  have response: "fst (GET (\<lambda>st cv scopes. \<lparr>url_base = ''https://idp.example/auth'',
                                 searchParams = [(''state'', st), (''prompt'', ''none'')]\<rparr>)
          (\<lambda>u. url_base u @ concat (map (\<lambda>p. ''&'' @ fst p @ ''='' @ snd p) (searchParams u)))
          (Some ''production'') ''S'' ''V'' Map.empty)
   = \<lparr>status = 302,
      headers = [(''Location'', ''https://idp.example/auth&state=S&prompt=select_account'')],
      body = None\<rparr>"
    by (simp add: GET_def Let_def)
  from oauth_login_initiation [of
      "\<lambda>st cv scopes. \<lparr>url_base = ''https://idp.example/auth'',
                         searchParams = [(''state'', st), (''prompt'', ''none'')]\<rparr>"
      "\<lambda>u. url_base u @ concat (map (\<lambda>p. ''&'' @ fst p @ ''='' @ snd p) (searchParams u))"
      "Some ''production''" "''S''" "''V''" Map.empty] response
  show ?thesis by simp
qed

section \<open>Renewal is idempotent\<close>

text \<open>
  C9. Let a session be stored under the hash of the token, with its owning user present,
  and let \<open>now\<close> lie in its renewal window. The validation writes and returns the expiry
  \<open>now\<close> + 30 days. Validating the resulting storage again at \<open>now\<close> gives the same result
  and the same storage; writing the renewal a second time changes nothing; and had the
  session had any other previous expiry with \<open>now\<close> in its window, the validation would
  have given the same result and the same storage.
\<close>

theorem renewal_idempotent:
  assumes "session_pk d" and "s \<in> set (sessionTable d)" and "session_id s = H token"
    and "owner_of d s = Some u"
    and "expiresAt s - fifteen_days \<le> now" and "now < expiresAt s"
  shows "validateAt H d token now =
           (Validated (s\<lparr>expiresAt := now + thirty_days\<rparr>) u,
            db_update_expiresAt d (session_id s) (now + thirty_days))
       \<and> validateAt H (snd (validateAt H d token now)) token now = validateAt H d token now
       \<and> db_update_expiresAt (snd (validateAt H d token now)) (session_id s) (now + thirty_days)
           = snd (validateAt H d token now)
       \<and> (\<forall>e. e - fifteen_days \<le> now \<and> now < e \<longrightarrow>
             validateAt H (db_update_expiresAt d (session_id s) e) token now
               = validateAt H d token now)"
proof -
  have first: "validateAt H d token now =
      (Validated (s\<lparr>expiresAt := now + thirty_days\<rparr>) u,
       db_update_expiresAt d (session_id s) (now + thirty_days))"
    using assms(5,6)
    by (simp add: validateAt_def validate_stored[where H=H and token=token, OF assms(1-4)])
  have other: "validateAt H (db_update_expiresAt d (session_id s) e) token now
      = validateAt H d token now" if e: "e - fifteen_days \<le> now \<and> now < e" for e
  proof -
    let ?se = "s\<lparr>expiresAt := e\<rparr>"
    let ?de = "db_update_expiresAt d (session_id s) e"
    have "session_pk ?de" using assms(1) by (simp add: update_pk)
    moreover have "?se \<in> set (sessionTable ?de)" using assms(2) by (rule update_member)
    moreover have "session_id ?se = H token" using assms(3) by simp
    moreover have "owner_of ?de ?se = Some u" using assms(4) by (simp add: update_owner)
    ultimately have "validateSessionToken H ?de token now now now =
       (if expiresAt ?se \<le> now then (NoSession, db_delete_session ?de (session_id ?se))
        else if expiresAt ?se - fifteen_days \<le> now then
          (Validated (?se\<lparr>expiresAt := now + thirty_days\<rparr>) u,
           db_update_expiresAt ?de (session_id ?se) (now + thirty_days))
        else (Validated ?se u, ?de))"
      by (rule validate_stored)
    with e first show ?thesis
      by (simp add: validateAt_def update_update)
  qed
  from first other validate_renewed_again[where H=H and token=token, OF assms(1-4)] show ?thesis
    by (simp add: update_update)
qed


theorem renewal_idempotent_witness:
  "validateAt (\<lambda>t. ''h:'' @ t)
     \<lparr>sessionTable = [\<lparr>session_id = ''h:tok'', userId = 7, expiresAt = days 30\<rparr>],
      userTable = [\<lparr>user_id = 7, profile = ''ann''\<rparr>]\<rparr> ''tok'' (days 20)
   = (Validated \<lparr>session_id = ''h:tok'', userId = 7, expiresAt = days 50\<rparr>
        \<lparr>user_id = 7, profile = ''ann''\<rparr>,
      \<lparr>sessionTable = [\<lparr>session_id = ''h:tok'', userId = 7, expiresAt = days 50\<rparr>],
       userTable = [\<lparr>user_id = 7, profile = ''ann''\<rparr>]\<rparr>)
   \<and> validateAt (\<lambda>t. ''h:'' @ t)
     \<lparr>sessionTable = [\<lparr>session_id = ''h:tok'', userId = 7, expiresAt = days 50\<rparr>],
      userTable = [\<lparr>user_id = 7, profile = ''ann''\<rparr>]\<rparr> ''tok'' (days 20)
   = (Validated \<lparr>session_id = ''h:tok'', userId = 7, expiresAt = days 50\<rparr>
        \<lparr>user_id = 7, profile = ''ann''\<rparr>,
      \<lparr>sessionTable = [\<lparr>session_id = ''h:tok'', userId = 7, expiresAt = days 50\<rparr>],
       userTable = [\<lparr>user_id = 7, profile = ''ann''\<rparr>]\<rparr>)
   \<and> validateAt (\<lambda>t. ''h:'' @ t)
     \<lparr>sessionTable = [\<lparr>session_id = ''h:tok'', userId = 7, expiresAt = days 25\<rparr>],
      userTable = [\<lparr>user_id = 7, profile = ''ann''\<rparr>]\<rparr> ''tok'' (days 20)
   = (Validated \<lparr>session_id = ''h:tok'', userId = 7, expiresAt = days 50\<rparr>
        \<lparr>user_id = 7, profile = ''ann''\<rparr>,
      \<lparr>sessionTable = [\<lparr>session_id = ''h:tok'', userId = 7, expiresAt = days 50\<rparr>],
       userTable = [\<lparr>user_id = 7, profile = ''ann''\<rparr>]\<rparr>)"
proof -
  let ?H = "\<lambda>t. ''h:'' @ t"
  let ?u = "\<lparr>user_id = 7, profile = ''ann''\<rparr>"
  let ?s = "\<lparr>session_id = ''h:tok'', userId = 7, expiresAt = days 30\<rparr>"
  let ?d = "\<lparr>sessionTable = [?s], userTable = [?u]\<rparr>"
  have pk: "session_pk ?d" and stored: "?s \<in> set (sessionTable ?d)"
    and hash: "session_id ?s = ?H ''tok''" and owner: "owner_of ?d ?s = Some ?u"
    and window: "expiresAt ?s - fifteen_days \<le> days 20" "days 20 < expiresAt ?s"
    by (simp_all add: session_defs)
  have other: "days 25 - fifteen_days \<le> days 20 \<and> days 20 < days 25"
    by (simp add: days_def fifteen_days_def)
  from renewal_idempotent [where H = ?H and token = "''tok''", OF pk stored hash owner window]
  have "validateAt ?H ?d ''tok'' (days 20) =
           (Validated (?s\<lparr>expiresAt := days 20 + thirty_days\<rparr>) ?u,
            db_update_expiresAt ?d (session_id ?s) (days 20 + thirty_days))"
    and "validateAt ?H (snd (validateAt ?H ?d ''tok'' (days 20))) ''tok'' (days 20)
           = validateAt ?H ?d ''tok'' (days 20)"
    and "validateAt ?H (db_update_expiresAt ?d (session_id ?s) (days 25)) ''tok'' (days 20)
           = validateAt ?H ?d ''tok'' (days 20)"
    using other by blast+
  then show ?thesis
    by (simp add: db_update_expiresAt_def days_def thirty_days_def)
qed

section \<open>Remaining lifetime of a validated session\<close>

text \<open>
  C10. Whenever \<^verbatim>\<open>validateSessionToken\<close> returns a session, that session expires
  strictly more than 15 days after the validation time: either it was outside the renewal
  window and is returned as stored, or it is returned with the expiry 30 days after the
  clock reading. The clock readings of one call are taken in order, so they do not
  decrease; a call at a single instant \<open>now\<close> is the case \<open>t1 = t2 = t3 = now\<close>.
\<close>

theorem validated_session_outlives_fifteen_days:
  assumes "validateSessionToken H d token t1 t2 t3 = (Validated s u, d')"
    and "t1 \<le> t2" and "t2 \<le> t3"
  shows "t1 + fifteen_days < expiresAt s \<and> t2 + fifteen_days < expiresAt s \<and>
         ((s \<in> set (sessionTable d) \<and> d' = d) \<or> expiresAt s = t3 + thirty_days)"
  using assms(1)
proof (cases rule: validate_Validated_cases)
  case (renewed s0 rest)
  with assms(2,3) show ?thesis
    by (simp add: fifteen_days_def thirty_days_def)
next
  case (unchanged rest)
  from join_Cons_D[OF unchanged(1)] have "s \<in> set (sessionTable d)" by simp
  with unchanged assms(2,3) show ?thesis by simp
qed

theorem validated_session_outlives_fifteen_days_witness:
  "validateSessionToken (\<lambda>t. ''h:'' @ t)
     \<lparr>sessionTable = [\<lparr>session_id = ''h:tok'', userId = 7, expiresAt = 2000000000\<rparr>],
      userTable = [\<lparr>user_id = 7, profile = ''ann''\<rparr>]\<rparr> ''tok'' 1000000000 1000000001 1000000002
   = (Validated \<lparr>session_id = ''h:tok'', userId = 7, expiresAt = 3592000002\<rparr>
        \<lparr>user_id = 7, profile = ''ann''\<rparr>,
      \<lparr>sessionTable = [\<lparr>session_id = ''h:tok'', userId = 7, expiresAt = 3592000002\<rparr>],
       userTable = [\<lparr>user_id = 7, profile = ''ann''\<rparr>]\<rparr>)
   \<and> (1000000000::int) \<le> 1000000001 \<and> (1000000001::int) \<le> 1000000002
   \<and> 1000000000 + fifteen_days < 3592000002 \<and> 1000000001 + fifteen_days < 3592000002"
proof -
  have run: "validateSessionToken (\<lambda>t. ''h:'' @ t)
     \<lparr>sessionTable = [\<lparr>session_id = ''h:tok'', userId = 7, expiresAt = 2000000000\<rparr>],
      userTable = [\<lparr>user_id = 7, profile = ''ann''\<rparr>]\<rparr> ''tok'' 1000000000 1000000001 1000000002
   = (Validated \<lparr>session_id = ''h:tok'', userId = 7, expiresAt = 3592000002\<rparr>
        \<lparr>user_id = 7, profile = ''ann''\<rparr>,
      \<lparr>sessionTable = [\<lparr>session_id = ''h:tok'', userId = 7, expiresAt = 3592000002\<rparr>],
       userTable = [\<lparr>user_id = 7, profile = ''ann''\<rparr>]\<rparr>)"
    by (simp add: session_defs)
  from validated_session_outlives_fifteen_days [OF run] run show ?thesis by simp
qed

end
